theory Spec2Isabelle
  imports Complex_Main "HOL-Library.Word"
begin

unbundle bit_operations_syntax

text \<open>
  A model of the Python package \<^verbatim>\<open>pypkarr\<close>: the z-base-32 codec and the identity
  types, the signed packet, and the lookup loop of the DHT client. Each module of the
  package has a section of definitions that follow its functions statement by
  statement; exceptions are values of a sum type, and the external libraries
  (\<^verbatim>\<open>ed25519\<close>, the DNS codec, the network) and the clock are parameters. The
  sections after the definitions hold the proofs.
\<close>

section \<open>Values shared by all modules\<close>

text \<open>
  A Python \<^verbatim>\<open>bytes\<close> object is a list of 8-bit values. A Python \<^verbatim>\<open>str\<close> is a
  \<^typ>\<open>string\<close>: every string the modelled code builds or inspects consists of
  characters below code point 256. Python integers are \<^typ>\<open>int\<close>.
\<close>

type_synonym byte = "8 word"
type_synonym bytes = "byte list"

text \<open>
  Exceptions are values. The first group are Python's built-in exceptions, the second
  the classes of \<^verbatim>\<open>errors.py\<close> that the modelled code raises; only the latter derive
  from \<^verbatim>\<open>PkarrError\<close>.
\<close>

datatype pyerror =
    ValueError string
  | TypeError
  | AttributeError
  | NameError
  | UnboundLocalError
  | KeyError
  | OverflowError
  | OSError
  | StructError
  | PublicKeyError string
  | KeypairError
  | PacketError

text \<open>\<^verbatim>\<open>except PkarrError\<close> catches exactly the classes derived from it.\<close>

fun is_PkarrError :: "pyerror \<Rightarrow> bool" where
  "is_PkarrError (PublicKeyError _) = True"
| "is_PkarrError KeypairError = True"
| "is_PkarrError PacketError = True"
| "is_PkarrError _ = False"

fun is_ValueError :: "pyerror \<Rightarrow> bool" where
  "is_ValueError (ValueError _) = True"
| "is_ValueError _ = False"

section \<open>crypto.py: the z-base-32 codec\<close>

definition alphabet :: string where
  "alphabet = ''ybndrfg8ejkmcpqxot1uwisza345h769''"

text \<open>
  \<^verbatim>\<open>while bits >= 5: bits -= 5; result += alphabet[(value >> bits) & 31]\<close>.
  The counter \<^verbatim>\<open>bits\<close> is a \<^typ>\<open>nat\<close>: it starts at 0 and every subtraction is
  guarded by the comparison before it. The index is below 32, the length of the
  alphabet, so the subscript cannot raise.
\<close>

function enc_while :: "int \<Rightarrow> nat \<Rightarrow> string \<Rightarrow> nat \<times> string" where
  "enc_while v bits result =
     (if bits \<ge> 5
      then enc_while v (bits - 5) (result @ [alphabet ! nat (drop_bit (bits - 5) v AND 31)])
      else (bits, result))"
  by pat_completeness auto
termination
  by (relation "measure (\<lambda>(v, bits, result). bits)") auto

declare enc_while.simps [simp del]

text \<open>\<^verbatim>\<open>for byte in data: value = (value << 8) | byte; bits += 8; while ...\<close>\<close>

fun enc_for :: "int \<Rightarrow> nat \<Rightarrow> string \<Rightarrow> bytes \<Rightarrow> int \<times> nat \<times> string" where
  "enc_for v bits result [] = (v, bits, result)"
| "enc_for v bits result (b # data) =
     (let v' = push_bit 8 v OR uint b;
          (bits', result') = enc_while v' (bits + 8) result
      in enc_for v' bits' result' data)"

definition z_base_32_encode :: "bytes \<Rightarrow> string" where
  "z_base_32_encode data =
     (let (v, bits, result) = enc_for 0 0 [] data
      in if bits > 0
         then result @ [alphabet ! nat (push_bit (5 - bits) v AND 31)]
         else result)"

text \<open>
  \<^verbatim>\<open>alphabet_map = {char: index for index, char in enumerate(alphabet)}\<close>: a later
  entry for the same character would overwrite an earlier one.
\<close>

definition alphabet_map :: "char \<rightharpoonup> nat" where
  "alphabet_map =
     fold (\<lambda>(index, c) m. m(c \<mapsto> index)) (zip [0..<length alphabet] alphabet) Map.empty"

text \<open>
  The decoding loop. \<^verbatim>\<open>alphabet_map[char]\<close> raises \<^verbatim>\<open>KeyError\<close> for a character
  outside the alphabet. The appended value is masked with 255, so
  \<^verbatim>\<open>bytearray.append\<close> cannot raise.
\<close>

fun dec_for :: "int \<Rightarrow> nat \<Rightarrow> bytes \<Rightarrow> string \<Rightarrow> pyerror + bytes" where
  "dec_for v bits result [] = Inr result"
| "dec_for v bits result (c # encoded) =
     (case alphabet_map c of
        None \<Rightarrow> Inl KeyError
      | Some index \<Rightarrow>
          (let v' = push_bit 5 v OR int index;
               bits' = bits + 5
           in if bits' \<ge> 8
              then dec_for v' (bits' - 8)
                     (result @ [word_of_int (drop_bit (bits' - 8) v' AND 255)]) encoded
              else dec_for v' bits' result encoded))"

definition z_base_32_decode :: "string \<Rightarrow> pyerror + bytes" where
  "z_base_32_decode encoded = dec_for 0 0 [] encoded"

section \<open>public\_key.py\<close>

record PublicKey =
  key :: bytes

text \<open>The dynamic type of the argument of \<^verbatim>\<open>PublicKey.__init__\<close>.\<close>

datatype key_arg = KeyStr string | KeyBytes bytes | KeyOther

text \<open>
  \<^verbatim>\<open>PublicKey.__init__\<close>. On the string path only a \<^verbatim>\<open>ValueError\<close> of the decoder is
  turned into \<^verbatim>\<open>PublicKeyError\<close>; any other exception of the decoder passes through,
  and the decoded length is not inspected.
\<close>

fun PublicKey_init :: "key_arg \<Rightarrow> pyerror + PublicKey" where
  "PublicKey_init (KeyStr s) =
     (case z_base_32_decode s of
        Inl e \<Rightarrow>
          (if is_ValueError e then Inl (PublicKeyError ''Invalid z-base-32 encoded public key'')
           else Inl e)
      | Inr k \<Rightarrow> Inr \<lparr>key = k\<rparr>)"
| "PublicKey_init (KeyBytes k) =
     (if length k \<noteq> 32 then Inl (PublicKeyError ''Public key must be 32 bytes long'')
      else Inr \<lparr>key = k\<rparr>)"
| "PublicKey_init KeyOther =
     Inl (PublicKeyError ''Public key must be bytes or z-base-32 encoded string'')"

definition to_z32 :: "PublicKey \<Rightarrow> string" where
  "to_z32 pk = z_base_32_encode (key pk)"

definition to_bytes :: "PublicKey \<Rightarrow> bytes" where
  "to_bytes pk = key pk"

text \<open>
  The \<^verbatim>\<open>ed25519\<close> package is an external collaborator. Its three operations are
  parameters of the model: public key of a seed, signature of a message under a seed,
  and the verification predicate. Nothing is assumed about them.
\<close>

record ed25519 =
  ed_public :: "bytes \<Rightarrow> bytes"
  ed_sign :: "bytes \<Rightarrow> bytes \<Rightarrow> bytes"
  ed_verify :: "bytes \<Rightarrow> bytes \<Rightarrow> bytes \<Rightarrow> bool"

definition Crypto_derive_public_key :: "ed25519 \<Rightarrow> bytes \<Rightarrow> pyerror + bytes" where
  "Crypto_derive_public_key ed sk =
     (if length sk \<noteq> 32 then Inl (ValueError ''Secret key must be 32 bytes long'')
      else Inr (ed_public ed sk))"

definition Crypto_sign :: "ed25519 \<Rightarrow> bytes \<Rightarrow> bytes \<Rightarrow> pyerror + bytes" where
  "Crypto_sign ed sk message =
     (if length sk \<noteq> 32 then Inl (ValueError ''Secret key must be 32 bytes long'')
      else Inr (ed_sign ed sk message))"

definition Crypto_verify :: "ed25519 \<Rightarrow> bytes \<Rightarrow> bytes \<Rightarrow> bytes \<Rightarrow> bool" where
  "Crypto_verify ed pk message sig = ed_verify ed pk message sig"

definition PublicKey_verify :: "ed25519 \<Rightarrow> PublicKey \<Rightarrow> bytes \<Rightarrow> bytes \<Rightarrow> bool" where
  "PublicKey_verify ed pk message sig = Crypto_verify ed (key pk) message sig"

section \<open>keypair.py\<close>

text \<open>
  \<^verbatim>\<open>self.public_key\<close> of a \<^verbatim>\<open>Keypair\<close> is an attribute holding a \<^verbatim>\<open>PublicKey\<close>
  instance (field \<open>kp_public_key\<close> here, since \<open>public_key\<close> also names a field of
  \<^verbatim>\<open>SignedPacket\<close>).
\<close>

record Keypair =
  secret_key :: bytes
  kp_public_key :: PublicKey

definition Keypair_init :: "ed25519 \<Rightarrow> bytes \<Rightarrow> pyerror + Keypair" where
  "Keypair_init ed sk =
     (if length sk \<noteq> 32 then Inl KeypairError
      else case Crypto_derive_public_key ed sk of
             Inl e \<Rightarrow> Inl e
           | Inr pkb \<Rightarrow>
               (case PublicKey_init (KeyBytes pkb) of
                  Inl e \<Rightarrow> Inl e
                | Inr pk \<Rightarrow> Inr \<lparr>secret_key = sk, kp_public_key = pk\<rparr>))"

definition Keypair_sign :: "ed25519 \<Rightarrow> Keypair \<Rightarrow> bytes \<Rightarrow> pyerror + bytes" where
  "Keypair_sign ed kp message = Crypto_sign ed (secret_key kp) message"

section \<open>resource\_record.py, packet.py and the placeholder classes of signed\_packet.py\<close>

text \<open>
  \<^verbatim>\<open>signed_packet.py\<close> does not import the classes of \<^verbatim>\<open>public_key.py\<close> and
  \<^verbatim>\<open>packet.py\<close>: it declares dataclasses of its own named \<^verbatim>\<open>PublicKey\<close>,
  \<^verbatim>\<open>ResourceRecord\<close> and \<^verbatim>\<open>Packet\<close>. Python dispatches a method call on the class
  of the object, so the model keeps the class of an object as the constructor of its
  datatype.
\<close>

record ResourceRecord =
  name :: string
  rclass :: string
  ttl :: int
  rtype :: string
  rdata :: string

record PacketHeader =
  msg_id :: int
  qr :: bool
  opcode :: int
  aa :: bool
  tc :: bool
  rd :: bool
  ra :: bool
  z :: int
  rcode :: int

text \<open>
  The field \<^verbatim>\<open>id\<close> of a packet is \<open>msg_id\<close> here. \<open>SP_Packet\<close> is the dataclass \<^verbatim>\<open>Packet\<close> of \<^verbatim>\<open>signed_packet.py\<close> (one field),
  \<open>PK_Packet\<close> the class of \<^verbatim>\<open>packet.py\<close>.
\<close>

datatype Packet =
    SP_Packet (answers: "ResourceRecord list")
  | PK_Packet (answers: "ResourceRecord list") (header: PacketHeader)

text \<open>
  \<open>SP_PublicKey\<close> is the dataclass \<^verbatim>\<open>PublicKey\<close> of \<^verbatim>\<open>signed_packet.py\<close>: a field
  \<^verbatim>\<open>key\<close> and a method \<^verbatim>\<open>to_z32\<close> whose body is \<^verbatim>\<open>pass\<close>. \<open>PK_PublicKey\<close> is an
  instance of the class of \<^verbatim>\<open>public_key.py\<close>.
\<close>

datatype pubkey_obj = SP_PublicKey bytes | PK_PublicKey PublicKey

fun key_of :: "pubkey_obj \<Rightarrow> bytes" where
  "key_of (SP_PublicKey k) = k"
| "key_of (PK_PublicKey pk) = key pk"

text \<open>
  The attribute lookup \<^verbatim>\<open>public_key.verify\<close>: the placeholder dataclass has no such
  attribute, the class of \<^verbatim>\<open>public_key.py\<close> has the method.
\<close>

fun getattr_verify :: "ed25519 \<Rightarrow> pubkey_obj \<Rightarrow> pyerror + (bytes \<Rightarrow> bytes \<Rightarrow> bool)" where
  "getattr_verify ed (SP_PublicKey k) = Inl AttributeError"
| "getattr_verify ed (PK_PublicKey pk) = Inr (PublicKey_verify ed pk)"

text \<open>
  The DNS wire codec (\<^verbatim>\<open>dnspython\<close>) is an external collaborator: \<open>wire\<close> stands for the
  body of the \<^verbatim>\<open>try\<close> block of \<^verbatim>\<open>Packet.build_bytes_vec_compressed\<close> in
  \<^verbatim>\<open>packet.py\<close>, \<open>None\<close> when it raises; the method turns every exception into
  \<^verbatim>\<open>PacketError\<close>. The method of the placeholder class has the body \<^verbatim>\<open>pass\<close> and
  returns Python's \<^verbatim>\<open>None\<close>, which is the inner \<open>None\<close> of the result.
\<close>

type_synonym wire_codec = "PacketHeader \<Rightarrow> ResourceRecord list \<Rightarrow> bytes option"

fun build_bytes_vec_compressed :: "wire_codec \<Rightarrow> Packet \<Rightarrow> pyerror + bytes option" where
  "build_bytes_vec_compressed wire (SP_Packet rrs) = Inr None"
| "build_bytes_vec_compressed wire (PK_Packet rrs h) =
     (case wire h rrs of None \<Rightarrow> Inl PacketError | Some bs \<Rightarrow> Inr (Some bs))"

section \<open>signed\_packet.py\<close>

record SignedPacket =
  public_key :: pubkey_obj
  signature :: bytes
  timestamp :: int
  packet :: Packet
  last_seen :: int

text \<open>Python's \<^verbatim>\<open>str(n)\<close> for an integer, as an f-string field produces it.\<close>

definition digit_char :: "nat \<Rightarrow> char" where
  "digit_char d = ''0123456789'' ! d"

fun str_nat :: "nat \<Rightarrow> string" where
  "str_nat n = (if n < 10 then [digit_char n] else str_nat (n div 10) @ [digit_char (n mod 10)])"

declare str_nat.simps [simp del]

definition str_int :: "int \<Rightarrow> string" where
  "str_int i = (if i < 0 then CHR ''-'' # str_nat (nat (- i)) else str_nat (nat i))"

text \<open>
  \<^verbatim>\<open>str.encode()\<close> is UTF-8: one byte for a code point below 128, two bytes for the
  other code points a \<^typ>\<open>char\<close> can hold.
\<close>

definition utf8_char :: "char \<Rightarrow> bytes" where
  "utf8_char c =
     (let n = (of_char c :: nat)
      in if n < 128 then [of_nat n]
         else [of_nat (192 + n div 64), of_nat (128 + n mod 64)])"

definition str_encode :: "string \<Rightarrow> bytes" where
  "str_encode s = concat (map utf8_char s)"

text \<open>\<^verbatim>\<open>f"3:seqi{timestamp}e1:v{len(v)}:".encode() + v\<close>\<close>

definition signable :: "int \<Rightarrow> bytes \<Rightarrow> bytes" where
  "signable ts v =
     str_encode (''3:seqi'' @ str_int ts @ ''e1:v'' @ str_int (int (length v)) @ '':'') @ v"

text \<open>
  The layout in the specification's words: the ASCII bytes of the framing text
  followed by the encoded packet.
\<close>

definition ascii :: "string \<Rightarrow> bytes" where
  "ascii s = map of_char s"

definition signable_spec :: "int \<Rightarrow> bytes \<Rightarrow> bytes" where
  "signable_spec t v =
     ascii (''3:seqi'' @ str_int t @ ''e1:v'' @ str_int (int (length v)) @ '':'') @ v"

text \<open>
  \<^verbatim>\<open>min(rr.ttl for rr in answers)\<close> on a non-empty list, and the method \<^verbatim>\<open>ttl\<close>
  (named \<open>SignedPacket_ttl\<close>, since \<open>ttl\<close> is the field of a record). The method
  returns before \<^verbatim>\<open>min\<close> when there are no answers, so the value of \<open>py_min []\<close> is
  never used.
\<close>

fun py_min :: "int list \<Rightarrow> int" where
  "py_min [] = 0"
| "py_min (x # xs) = fold (\<lambda>y m. if y < m then y else m) xs x"

definition SignedPacket_ttl :: "SignedPacket \<Rightarrow> int \<Rightarrow> int \<Rightarrow> int" where
  "SignedPacket_ttl self min_ttl max_ttl =
     (if answers (packet self) = [] then min_ttl
      else let min_record_ttl = py_min (map ttl (answers (packet self)))
           in max min_ttl (min max_ttl min_record_ttl))"

text \<open>The specification's clamp of a value into an interval.\<close>

definition clamp :: "int \<Rightarrow> int \<Rightarrow> int \<Rightarrow> int" where
  "clamp x lo hi = (if x < lo then lo else if hi < x then hi else x)"

text \<open>
  \<^verbatim>\<open>int(x)\<close> of a float truncates towards zero. A reading of \<^verbatim>\<open>time.time()\<close> is a
  real number; \<open>clock n\<close> is the reading of the \<open>n\<close>-th call made by the operation
  being modelled.
\<close>

definition py_int :: "real \<Rightarrow> int" where
  "py_int x = (if 0 \<le> x then \<lfloor>x\<rfloor> else \<lceil>x\<rceil>)"

definition elapsed :: "(nat \<Rightarrow> real) \<Rightarrow> SignedPacket \<Rightarrow> int" where
  "elapsed clock self = (py_int (clock 0 * 1000000) - last_seen self) div 1000000"

definition expires_in :: "(nat \<Rightarrow> real) \<Rightarrow> SignedPacket \<Rightarrow> int \<Rightarrow> int \<Rightarrow> int" where
  "expires_in clock self min_ttl max_ttl =
     max 0 (SignedPacket_ttl self min_ttl max_ttl - elapsed clock self)"

text \<open>\<^verbatim>\<open>int.from_bytes(bs, 'big')\<close> and \<^verbatim>\<open>n.to_bytes(8, 'big')\<close>.\<close>

definition be_val :: "bytes \<Rightarrow> int" where
  "be_val bs = foldl (\<lambda>v b. push_bit 8 v OR uint b) 0 bs"

definition to_bytes8 :: "int \<Rightarrow> pyerror + bytes" where
  "to_bytes8 n =
     (if n < 0 \<or> 2 ^ 64 \<le> n then Inl OverflowError
      else Inr (map (\<lambda>i. word_of_int (drop_bit (8 * (7 - i)) n)) [0..<8]))"

text \<open>
  Applying \<^verbatim>\<open>keypair.public_key\<close> as a function: the attribute holds a \<^verbatim>\<open>PublicKey\<close>
  instance and the class defines no \<^verbatim>\<open>__call__\<close>.
\<close>

definition call_instance :: "PublicKey \<Rightarrow> pyerror + pubkey_obj" where
  "call_instance pk = Inl TypeError"

text \<open>
  \<^verbatim>\<open>SignedPacket.from_packet\<close>. \<^verbatim>\<open>len(None)\<close> raises \<^verbatim>\<open>TypeError\<close>. The arguments of
  the constructor are evaluated in order, \<^verbatim>\<open>keypair.public_key()\<close> first.
\<close>

definition SignedPacket_from_packet ::
  "ed25519 \<Rightarrow> wire_codec \<Rightarrow> (nat \<Rightarrow> real) \<Rightarrow> Keypair \<Rightarrow> Packet \<Rightarrow> pyerror + SignedPacket" where
  "SignedPacket_from_packet ed wire clock keypair pkt =
     (let ts = py_int (clock 0 * 1000000)
      in case build_bytes_vec_compressed wire pkt of
           Inl e \<Rightarrow> Inl e
         | Inr None \<Rightarrow> Inl TypeError
         | Inr (Some encoded_packet) \<Rightarrow>
             (if length encoded_packet > 1000 then Inl (ValueError ''Packet too large'')
              else case Keypair_sign ed keypair (signable ts encoded_packet) of
                     Inl e \<Rightarrow> Inl e
                   | Inr sig \<Rightarrow>
                       (case call_instance (kp_public_key keypair) of
                          Inl e \<Rightarrow> Inl e
                        | Inr pk \<Rightarrow>
                            Inr \<lparr>public_key = pk, signature = sig, timestamp = ts,
                                 packet = pkt,
                                 last_seen = py_int (clock 1 * 1000000)\<rparr>)))"

text \<open>
  \<^verbatim>\<open>SignedPacket.from_bytes\<close>. The name \<^verbatim>\<open>PublicKey\<close> in this module is the
  placeholder dataclass, so \<^verbatim>\<open>PublicKey(data[:32])\<close> builds an \<open>SP_PublicKey\<close>. The
  packet of the result is \<^verbatim>\<open>Packet([])\<close>.
\<close>

definition SignedPacket_from_bytes ::
  "ed25519 \<Rightarrow> (nat \<Rightarrow> real) \<Rightarrow> bytes \<Rightarrow> pyerror + SignedPacket" where
  "SignedPacket_from_bytes ed clock data =
     (if length data < 104 then Inl (ValueError ''Invalid SignedPacket bytes length'')
      else if length data > 1104 then Inl (ValueError ''Packet too large'')
      else let pk = SP_PublicKey (take 32 data);
               sig = take 64 (drop 32 data);
               ts = be_val (take 8 (drop 96 data));
               encoded_packet = drop 104 data
           in case getattr_verify ed pk of
                Inl e \<Rightarrow> Inl e
              | Inr verify \<Rightarrow>
                  (if \<not> verify (signable ts encoded_packet) sig
                   then Inl (ValueError ''Invalid signature'')
                   else Inr \<lparr>public_key = pk, signature = sig, timestamp = ts,
                             packet = SP_Packet [],
                             last_seen = py_int (clock 0 * 1000000)\<rparr>))"

text \<open>
  \<^verbatim>\<open>SignedPacket.as_bytes\<close>: the concatenation is evaluated left to right;
  \<^verbatim>\<open>to_bytes(8, 'big')\<close> raises \<^verbatim>\<open>OverflowError\<close> outside 64 bits, and adding
  \<^verbatim>\<open>None\<close> to a \<^verbatim>\<open>bytes\<close> object raises \<^verbatim>\<open>TypeError\<close>.
\<close>

definition SignedPacket_as_bytes :: "wire_codec \<Rightarrow> SignedPacket \<Rightarrow> pyerror + bytes" where
  "SignedPacket_as_bytes wire self =
     (case to_bytes8 (timestamp self) of
        Inl e \<Rightarrow> Inl e
      | Inr tsb \<Rightarrow>
          (case build_bytes_vec_compressed wire (packet self) of
             Inl e \<Rightarrow> Inl e
           | Inr None \<Rightarrow> Inl TypeError
           | Inr (Some enc) \<Rightarrow> Inr (key_of (public_key self) @ signature self @ tsb @ enc)))"

section \<open>client.py\<close>

text \<open>
  \<^verbatim>\<open>PkarrClient.__init__\<close> assigns \<^verbatim>\<open>keypair\<close>, \<^verbatim>\<open>bootstrap_nodes\<close> and
  \<^verbatim>\<open>known_nodes\<close>. The attribute \<^verbatim>\<open>cache\<close> that \<^verbatim>\<open>lookup\<close> reads is assigned
  nowhere in the repository, so the field is optional: \<open>None\<close> is an instance without
  the attribute. A cache maps the textual key to a packet and an expiration time.
\<close>

record PkarrClient =
  keypair :: Keypair
  bootstrap_nodes :: "string list"
  known_nodes :: "string set"
  cache :: "(string \<rightharpoonup> SignedPacket \<times> real) option"

definition PkarrClient_init :: "Keypair \<Rightarrow> string list \<Rightarrow> PkarrClient" where
  "PkarrClient_init kp nodes =
     \<lparr>keypair = kp, bootstrap_nodes = nodes, known_nodes = set nodes, cache = None\<rparr>"

text \<open>
  What \<^verbatim>\<open>_request_packet\<close> can return: \<^verbatim>\<open>None\<close>, a \<^verbatim>\<open>SignedPacket\<close> or a list of
  node addresses.
\<close>

datatype request_result = RNone | RPacket SignedPacket | RNodes "string list"

text \<open>
  The constructor call of \<^verbatim>\<open>_connect_to_peers\<close>,
  \<^verbatim>\<open>SignedPacket(target_key, b"dummy_signature", Packet())\<close>: the dataclass has five
  fields without defaults, so three positional arguments raise \<^verbatim>\<open>TypeError\<close>.
\<close>

definition SignedPacket_three_args :: "PublicKey \<Rightarrow> bytes \<Rightarrow> Packet \<Rightarrow> pyerror + SignedPacket" where
  "SignedPacket_three_args pk sig pkt = Inl TypeError"

definition dummy_signature :: bytes where
  "dummy_signature = str_encode ''dummy_signature''"

definition default_Packet :: Packet where
  "default_Packet =
     PK_Packet [] \<lparr>msg_id = 0, qr = True, opcode = 0, aa = True, tc = False, rd = False,
                   ra = False, z = 0, rcode = 0\<rparr>"

text \<open>
  \<^verbatim>\<open>_connect_to_peers\<close>. A peer value is well formed when it has six bytes
  (\<^verbatim>\<open>inet_ntoa\<close> needs four, \<^verbatim>\<open>struct.unpack("!H", ...)\<close> the remaining two).
  Every exception of the body is caught by \<^verbatim>\<open>except Exception\<close>, whose log message
  reads the variable \<^verbatim>\<open>peer\<close>: it is unbound until some iteration has assigned it
  (\<open>peer_bound\<close>), and then the handler itself raises \<^verbatim>\<open>UnboundLocalError\<close>.
\<close>

fun connect_to_peers :: "bool \<Rightarrow> bytes list \<Rightarrow> PublicKey \<Rightarrow> pyerror + request_result" where
  "connect_to_peers peer_bound [] target_key = Inr RNone"
| "connect_to_peers peer_bound (peer_value # peer_values) target_key =
     (if length peer_value = 6
      then (case SignedPacket_three_args target_key dummy_signature default_Packet of
              Inl e \<Rightarrow> connect_to_peers True peer_values target_key
            | Inr sp \<Rightarrow> Inr (RPacket sp))
      else if peer_bound then connect_to_peers True peer_values target_key
      else Inl UnboundLocalError)"

text \<open>
  \<^verbatim>\<open>_decode_nodes\<close>: records of 26 bytes; a shorter last record makes
  \<^verbatim>\<open>inet_ntoa\<close> or \<^verbatim>\<open>struct.unpack\<close> raise.
\<close>

definition inet_ntoa :: "bytes \<Rightarrow> string" where
  "inet_ntoa bs =
     str_nat (unat (bs ! 0)) @ ''.'' @ str_nat (unat (bs ! 1)) @ ''.'' @
     str_nat (unat (bs ! 2)) @ ''.'' @ str_nat (unat (bs ! 3))"

function decode_nodes :: "bytes \<Rightarrow> pyerror + string list" where
  "decode_nodes nodes_data =
     (if nodes_data = [] then Inr []
      else if length nodes_data < 24 then Inl OSError
      else if length nodes_data < 26 then Inl StructError
      else (case decode_nodes (drop 26 nodes_data) of
              Inl e \<Rightarrow> Inl e
            | Inr nodes \<Rightarrow>
                Inr ((inet_ntoa (take 4 (drop 20 nodes_data)) @ '':'' @
                      str_int (be_val (take 2 (drop 24 nodes_data)))) # nodes)))"
  by pat_completeness auto
termination
  by (relation "measure length") auto

declare decode_nodes.simps [simp del]

text \<open>
  \<^verbatim>\<open>str.split(sep)\<close> for a separator of one character, and the two tuple
  assignments at the head of \<^verbatim>\<open>_request_packet\<close>, each of which raises
  \<^verbatim>\<open>ValueError\<close> unless the split has exactly two parts. \<open>int_of_text\<close> stands for
  Python's \<^verbatim>\<open>int()\<close> on a string, \<open>None\<close> when it raises \<^verbatim>\<open>ValueError\<close>.
\<close>

fun split_on :: "char \<Rightarrow> string \<Rightarrow> string list" where
  "split_on sep [] = [[]]"
| "split_on sep (c # cs) =
     (if c = sep then [] # split_on sep cs
      else (case split_on sep cs of [] \<Rightarrow> [[c]] | part # parts \<Rightarrow> (c # part) # parts))"

definition parse_node :: "(string \<Rightarrow> int option) \<Rightarrow> string \<Rightarrow> (string \<times> int) option" where
  "parse_node int_of_text node =
     (case (if CHR ''@'' \<in> set node
            then (case split_on CHR ''@'' node of [u, ip_port] \<Rightarrow> Some ip_port | _ \<Rightarrow> None)
            else Some node) of
        None \<Rightarrow> None
      | Some ip_port \<Rightarrow>
          (case split_on CHR '':'' ip_port of
             [host, port] \<Rightarrow>
               (case int_of_text port of None \<Rightarrow> None | Some n \<Rightarrow> Some (host, n))
           | _ \<Rightarrow> None))"

text \<open>
  The network is an external collaborator. \<open>exchange host port\<close> is the outcome of
  the statements from the creation of the socket to the logging of the decoded
  response: the socket could not be created, the receive timed out, some other
  exception was raised, or a response arrived. A response is classified by the tests
  the method applies to it, in their order.
\<close>

datatype dht_reply = ReplyError | ReplyValues "bytes list" | ReplyNodes bytes | ReplyOther

datatype net_outcome = NoSocket | Timeout | Failure | Reply dht_reply

record network =
  int_of_text :: "string \<Rightarrow> int option"
  exchange :: "string \<Rightarrow> int \<Rightarrow> net_outcome"

text \<open>
  \<^verbatim>\<open>_request_packet\<close> with its three parameters. When an exception is raised before
  \<^verbatim>\<open>sock\<close> is assigned, the \<^verbatim>\<open>finally\<close> clause \<^verbatim>\<open>sock.close()\<close> raises
  \<^verbatim>\<open>UnboundLocalError\<close> (and so does the handler's log message when \<^verbatim>\<open>host\<close> is
  unbound); this exception leaves the method. Every exception raised later is caught
  and the method returns \<^verbatim>\<open>None\<close>. The second component is the client with
  \<^verbatim>\<open>known_nodes\<close> updated.
\<close>

definition request_packet ::
  "network \<Rightarrow> PkarrClient \<Rightarrow> string \<Rightarrow> PublicKey \<Rightarrow> string \<Rightarrow>
   (pyerror + request_result) \<times> PkarrClient" where
  "request_packet net self node target_key record_type =
     (case parse_node (int_of_text net) node of
        None \<Rightarrow> (Inl UnboundLocalError, self)
      | Some (host, port) \<Rightarrow>
          (case exchange net host port of
             NoSocket \<Rightarrow> (Inl UnboundLocalError, self)
           | Timeout \<Rightarrow> (Inr RNone, self)
           | Failure \<Rightarrow> (Inr RNone, self)
           | Reply ReplyError \<Rightarrow> (Inr RNone, self)
           | Reply (ReplyValues peer_values) \<Rightarrow>
               (case connect_to_peers False peer_values target_key of
                  Inl e \<Rightarrow> (Inr RNone, self)
                | Inr r \<Rightarrow> (Inr r, self))
           | Reply (ReplyNodes nodes) \<Rightarrow>
               (case decode_nodes nodes of
                  Inl e \<Rightarrow> (Inr RNone, self)
                | Inr decoded_nodes \<Rightarrow>
                    (Inr (RNodes decoded_nodes),
                     self\<lparr>known_nodes := known_nodes self \<union> set decoded_nodes\<rparr>))
           | Reply ReplyOther \<Rightarrow> (Inr RNone, self)))"

text \<open>
  The variables of the loop of \<^verbatim>\<open>lookup\<close>. The two sets are lists without
  repetition. \<open>ticks\<close> counts the calls of \<^verbatim>\<open>time.time()\<close> made so far, and \<open>queries\<close>
  is a history variable: the nodes for which \<^verbatim>\<open>_request_packet\<close> was called, in order.
\<close>

record loop_state =
  nodes_to_query :: "string list"
  queried_nodes :: "string list"
  attempts :: int
  ticks :: nat
  queries :: "string list"

text \<open>
  \<^verbatim>\<open>nodes_to_query.pop()\<close> removes an arbitrary element: \<open>pick\<close> says which one, as
  an index into the current frontier. The loop condition guarantees the frontier is
  not empty.
\<close>

definition pop_node :: "(string list \<Rightarrow> nat) \<Rightarrow> string list \<Rightarrow> string" where
  "pop_node pick xs = xs ! (pick xs mod length xs)"

text \<open>
  The first three statements of the loop body: pop a node, add it to the queried set,
  count the attempt. The clock was read once by the loop condition.
\<close>

definition pop_step :: "(string list \<Rightarrow> nat) \<Rightarrow> loop_state \<Rightarrow> string \<times> loop_state" where
  "pop_step pick st =
     (let node = pop_node pick (nodes_to_query st)
      in (node, st\<lparr>nodes_to_query := remove1 node (nodes_to_query st),
                    queried_nodes := List.insert node (queried_nodes st),
                    attempts := attempts st + 1,
                    ticks := Suc (ticks st),
                    queries := queries st @ [node]\<rparr>))"

text \<open>
  \<^verbatim>\<open>new_nodes = set(result) - queried_nodes; nodes_to_query.update(new_nodes)\<close>
\<close>

definition add_new_nodes :: "string list \<Rightarrow> loop_state \<Rightarrow> loop_state" where
  "add_new_nodes ns st =
     st\<lparr>nodes_to_query :=
          fold List.insert (filter (\<lambda>n. n \<notin> set (queried_nodes st)) ns) (nodes_to_query st)\<rparr>"

text \<open>
  The loop. \<open>request n node\<close> is the outcome of evaluating
  \<^verbatim>\<open>await self._request_packet(node, target_key)\<close> in the \<open>n\<close>-th attempt. The handler
  of the \<^verbatim>\<open>try\<close> statement catches \<^verbatim>\<open>PkarrError\<close> only. In the branch for a
  \<^verbatim>\<open>SignedPacket\<close> the right-hand side of the cache assignment reads the names
  \<^verbatim>\<open>DEFAULT_MINIMUM_TTL\<close> and \<^verbatim>\<open>DEFAULT_MAXIMUM_TTL\<close>, which \<^verbatim>\<open>client.py\<close> neither
  defines nor imports (they are globals of \<^verbatim>\<open>lookup.py\<close>): \<^verbatim>\<open>NameError\<close> is raised
  before anything is stored, and it is not a \<^verbatim>\<open>PkarrError\<close>. An empty list of nodes
  is false in the \<^verbatim>\<open>elif\<close>; adding no nodes has the same effect. The clock is read
  once per evaluation of the loop condition, after the two other conjuncts.
\<close>

function lookup_loop ::
  "(int \<Rightarrow> string \<Rightarrow> pyerror + request_result) \<Rightarrow> (nat \<Rightarrow> real) \<Rightarrow> (string list \<Rightarrow> nat) \<Rightarrow>
   int \<Rightarrow> real \<Rightarrow> real \<Rightarrow> loop_state \<Rightarrow> (pyerror + SignedPacket option) \<times> loop_state" where
  "lookup_loop request clock pick max_attempts timeout start_time st =
     (if nodes_to_query st \<noteq> [] \<and> attempts st < max_attempts \<and>
         clock (ticks st) - start_time < timeout
      then
        (case pop_step pick st of
           (node, st1) \<Rightarrow>
             (case request (attempts st1) node of
                Inl e \<Rightarrow>
                  (if is_PkarrError e
                   then lookup_loop request clock pick max_attempts timeout start_time st1
                   else (Inl e, st1))
              | Inr (RPacket result) \<Rightarrow> (Inl NameError, st1)
              | Inr (RNodes ns) \<Rightarrow>
                  lookup_loop request clock pick max_attempts timeout start_time
                    (add_new_nodes ns st1)
              | Inr RNone \<Rightarrow>
                  lookup_loop request clock pick max_attempts timeout start_time st1))
      else (Inr None, st))"
  by pat_completeness auto
termination
  by (relation "measure (\<lambda>(request, clock, pick, max_attempts, timeout, start_time, st).
                           nat (max_attempts - attempts st))")
     (auto simp add: pop_step_def add_new_nodes_def Let_def)

declare lookup_loop.simps [simp del]

text \<open>The variables as \<^verbatim>\<open>lookup\<close> initialises them before the loop.\<close>

definition loop_init :: "string list \<Rightarrow> nat \<Rightarrow> loop_state" where
  "loop_init nodes t =
     \<lparr>nodes_to_query = remdups nodes, queried_nodes = [], attempts = 0, ticks = t,
      queries = []\<rparr>"

text \<open>
  \<^verbatim>\<open>lookup\<close> with the outcome of the request left open. The result is the outcome
  for the caller together with the history of attempts. A cached packet is a
  \<^verbatim>\<open>SignedPacket\<close> instance and therefore true in a condition; without an entry
  \<^verbatim>\<open>get\<close> yields \<^verbatim>\<open>(None, 0)\<close> and the clock is not read by the cache check, so the
  reading taken for \<^verbatim>\<open>start_time\<close> is the first or the second one.
\<close>

definition lookup_with ::
  "(int \<Rightarrow> string \<Rightarrow> pyerror + request_result) \<Rightarrow> (nat \<Rightarrow> real) \<Rightarrow> (string list \<Rightarrow> nat) \<Rightarrow>
   PkarrClient \<Rightarrow> string \<Rightarrow> int \<Rightarrow> real \<Rightarrow> (pyerror + SignedPacket option) \<times> string list" where
  "lookup_with request clock pick self pk max_attempts timeout =
     (case PublicKey_init (KeyStr pk) of
        Inl e \<Rightarrow> (Inl e, [])
      | Inr target_key \<Rightarrow>
          (case cache self of
             None \<Rightarrow> (Inl AttributeError, [])
           | Some c \<Rightarrow>
               (let hit = (case c pk of
                             None \<Rightarrow> None
                           | Some (cached_packet, expiration_time) \<Rightarrow>
                               if clock 0 < expiration_time then Some cached_packet else None);
                    t0 = (case c pk of None \<Rightarrow> 0 | Some _ \<Rightarrow> Suc 0)
                in case hit of
                     Some cached_packet \<Rightarrow> (Inr (Some cached_packet), [])
                   | None \<Rightarrow>
                       (case lookup_loop request clock pick max_attempts timeout (clock t0)
                               (loop_init (bootstrap_nodes self) (Suc t0)) of
                          (r, st) \<Rightarrow> (r, queries st)))))"

text \<open>
  The call as the source writes it, \<^verbatim>\<open>self._request_packet(node, target_key)\<close>: the
  method is declared with the parameters \<^verbatim>\<open>(self, node, target_key, record_type)\<close> and
  no default, so binding the arguments raises \<^verbatim>\<open>TypeError\<close> before the body runs.
\<close>

definition request_packet_call :: "int \<Rightarrow> string \<Rightarrow> pyerror + request_result" where
  "request_packet_call n node = Inl TypeError"

definition lookup ::
  "(nat \<Rightarrow> real) \<Rightarrow> (string list \<Rightarrow> nat) \<Rightarrow> PkarrClient \<Rightarrow> string \<Rightarrow> int \<Rightarrow> real \<Rightarrow>
   (pyerror + SignedPacket option) \<times> string list" where
  "lookup = lookup_with request_packet_call"

section \<open>The invariant of the lookup loop\<close>

definition loop_inv :: "int \<Rightarrow> loop_state \<Rightarrow> bool" where
  "loop_inv max_attempts st \<longleftrightarrow>
     distinct (nodes_to_query st) \<and> distinct (queries st) \<and>
     set (nodes_to_query st) \<inter> set (queries st) = {} \<and>
     set (queried_nodes st) = set (queries st) \<and>
     attempts st = int (length (queries st)) \<and>
     attempts st \<le> max_attempts"

section \<open>Auxiliary notions of the proofs\<close>

definition is_ascii :: "char \<Rightarrow> bool" where
  "is_ascii c = ((of_char c :: nat) < 128)"


text \<open>
  One step of the decoding loop on the index of a character, and the relation between
  the encoder (having read the bytes \<open>p\<close> and written the characters with indices
  \<open>ixs\<close>) and the decoder run on those characters.
\<close>

fun dec_step :: "int \<times> nat \<times> bytes \<Rightarrow> nat \<Rightarrow> int \<times> nat \<times> bytes" where
  "dec_step (v, bits, result) index =
     (let v' = push_bit 5 v OR int index; bits' = bits + 5
      in if bits' \<ge> 8
         then (v', bits' - 8, result @ [word_of_int (drop_bit (bits' - 8) v' AND 255)])
         else (v', bits', result))"

definition zinv :: "bytes \<Rightarrow> int \<Rightarrow> nat \<Rightarrow> nat list \<Rightarrow> bool" where
  "zinv p v bits ixs \<longleftrightarrow>
     v = be_val p \<and> list_all (\<lambda>i. i < 32) ixs \<and> 8 * length p = 5 * length ixs + bits \<and>
     (case foldl dec_step (0, 0, []) ixs of (v', b', r') \<Rightarrow>
        v' = drop_bit bits v \<and> 5 * length ixs = 8 * length r' + b' \<and> b' < 8 \<and>
        r' = take (length r') p)"

section \<open>Concrete inputs\<close>

text \<open>A signed packet whose three records have the TTLs 10, 50 and 7.\<close>

definition rr :: "int \<Rightarrow> ResourceRecord" where
  "rr t = \<lparr>name = ''example'', rclass = ''IN'', ttl = t, rtype = ''TXT'', rdata = ''x''\<rparr>"

definition sp_example :: SignedPacket where
  "sp_example = \<lparr>public_key = SP_PublicKey [], signature = [], timestamp = 0,
                  packet = SP_Packet [rr 10, rr 50, rr 7], last_seen = 0\<rparr>"

text \<open>
  A textual key of 52 characters, a client whose \<^verbatim>\<open>cache\<close> attribute has been set to
  an empty dictionary, and a network in which node A answers with the nodes C, D and A,
  node D fails with a \<^verbatim>\<open>PkarrError\<close> and every other node answers nothing.
\<close>

definition key52 :: string where
  "key52 = replicate 52 CHR ''y''"

definition demo_client :: PkarrClient where
  "demo_client =
     \<lparr>keypair = \<lparr>secret_key = replicate 32 0, kp_public_key = \<lparr>key = replicate 32 1\<rparr>\<rparr>,
      bootstrap_nodes = [''A:1'', ''B:1''],
      known_nodes = {''A:1'', ''B:1''},
      cache = Some Map.empty\<rparr>"

definition demo_request :: "int \<Rightarrow> string \<Rightarrow> pyerror + request_result" where
  "demo_request n node =
     (if node = ''A:1'' then Inr (RNodes [''C:1'', ''D:1'', ''A:1''])
      else if node = ''D:1'' then Inl PacketError
      else Inr RNone)"

text \<open>A client whose cache holds the example packet for the key, expiring at time 100.\<close>

definition cached_client :: PkarrClient where
  "cached_client = demo_client\<lparr>cache := Some [key52 \<mapsto> (sp_example, 100)]\<rparr>"

text \<open>A codec that encodes every packet as the empty byte string, and a signer.\<close>

definition demo_wire :: wire_codec where
  "demo_wire h rrs = Some []"

definition demo_ed :: ed25519 where
  "demo_ed = \<lparr>ed_public = (\<lambda>sk. replicate 32 1), ed_sign = (\<lambda>sk m. replicate 64 2),
              ed_verify = (\<lambda>pk m sig. True)\<rparr>"

section \<open>The z-base-32 round trip\<close>

lemma alphabet_map_all: "list_all (\<lambda>i. alphabet_map (alphabet ! i) = Some i) [0..<32]"
  by code_simp

lemma alphabet_map_nth: "i < 32 \<Longrightarrow> alphabet_map (alphabet ! i) = Some i"
  using alphabet_map_all by (simp add: list_all_iff)

lemma m31: "(31::int) = mask 5" by (simp add: mask_eq_exp_minus_1)
lemma m255: "(255::int) = mask 8" by (simp add: mask_eq_exp_minus_1)

lemma be_val_Nil: "be_val [] = 0" by (simp add: be_val_def)
lemma be_val_snoc: "be_val (p @ [b]) = push_bit 8 (be_val p) OR uint b"
  by (simp add: be_val_def)

lemma drop8_uint: "drop_bit 8 (uint (b::byte)) = 0"
proof -
  have "take_bit 8 (uint b) = uint b" by (simp add: bintr_uint)
  then show ?thesis by (simp add: take_bit_eq_self_iff_drop_bit_eq_0)
qed

lemma dropn8_uint: "drop_bit (n + 8) (uint (b::byte)) = 0"
proof -
  have "drop_bit (n + 8) (uint b) = drop_bit n (drop_bit 8 (uint b))"
    by (simp only: drop_bit_drop_bit)
  then show ?thesis by (simp add: drop8_uint)
qed

lemma be_val_append: "be_val (xs @ ys) = push_bit (8 * length ys) (be_val xs) OR be_val ys"
proof (induction ys rule: rev_induct)
  case Nil then show ?case by (simp add: be_val_Nil)
next
  case (snoc y ys)
  have "be_val (xs @ ys @ [y]) = push_bit 8 (be_val (xs @ ys)) OR uint y"
    using be_val_snoc[of "xs @ ys" y] by simp
  also have "\<dots> = push_bit 8 (push_bit (8 * length ys) (be_val xs) OR be_val ys) OR uint y"
    by (simp add: snoc.IH)
  also have "\<dots> = push_bit (8 * length (ys @ [y])) (be_val xs) OR be_val (ys @ [y])"
    by (simp add: push_bit_or push_bit_push_bit be_val_snoc or.assoc add.commute)
  finally show ?case by simp
qed

lemma drop_push_int: "drop_bit n (push_bit n (a::int)) = a"
  by (simp add: drop_bit_push_bit)

lemma drop_push8_int: "drop_bit (n + 8) (push_bit 8 (a::int)) = drop_bit n a"
  by (simp add: drop_bit_push_bit)

lemma be_val_small: "drop_bit (8 * length ys) (be_val ys) = 0"
proof (induction ys rule: rev_induct)
  case Nil then show ?case by (simp add: be_val_Nil)
next
  case (snoc y ys)
  have "drop_bit (8 * length (ys @ [y])) (be_val (ys @ [y]))
        = drop_bit (8 * length ys) (drop_bit 8 (push_bit 8 (be_val ys) OR uint y))"
    by (simp add: be_val_snoc drop_bit_drop_bit add.commute)
  also have "\<dots> = drop_bit (8 * length ys) (be_val ys)"
    by (simp add: drop_bit_or drop8_uint drop_push_int)
  finally show ?case using snoc.IH by simp
qed

lemma drop_be_val: "drop_bit (8 * length ys) (be_val (xs @ ys)) = be_val xs"
  by (simp add: be_val_append drop_bit_or be_val_small drop_push_int)

lemma low_byte: "(word_of_int ((push_bit 8 a OR uint (b::byte)) AND 255) :: byte) = b"
proof -
  have "take_bit 8 (push_bit 8 a OR uint b) = uint b"
    by (simp add: take_bit_or take_bit_push_bit bintr_uint)
  then have "(push_bit 8 a OR uint b) AND 255 = uint b"
    by (simp only: m255 take_bit_eq_mask)
  then show ?thesis by (simp only: word_of_int_uint)
qed

lemma be_val_byte:
  assumes "j < length p"
  shows "(word_of_int (drop_bit (8 * (length p - Suc j)) (be_val p) AND 255) :: byte) = p ! j"
proof -
  have p: "p = (take j p @ [p ! j]) @ drop (Suc j) p"
    using assms by (simp add: id_take_nth_drop)
  have l: "length (drop (Suc j) p) = length p - Suc j" by simp
  have "drop_bit (8 * (length p - Suc j)) (be_val p) = be_val (take j p @ [p ! j])"
    using drop_be_val[of "drop (Suc j) p" "take j p @ [p ! j]"] p l by metis
  then show ?thesis by (simp only: be_val_snoc low_byte)
qed

lemma or_ident_int: "push_bit n (drop_bit n (a::int)) OR take_bit n a = a"
  by (rule bit_eqI) (auto simp add: bit_simps)

lemma pad_ident_int:
  "bits \<le> 5 \<Longrightarrow> push_bit 5 (drop_bit bits (v::int)) OR take_bit 5 (push_bit (5 - bits) v) = push_bit (5 - bits) v"
  by (rule bit_eqI) (auto simp add: bit_simps add.commute)

lemma zinv_init: "zinv [] 0 0 []"
  by (simp add: zinv_def be_val_Nil)

lemma zinv_byte:
  assumes "zinv p v bits ixs"
  shows "zinv (p @ [b]) (push_bit 8 v OR uint b) (bits + 8) ixs"
proof -
  obtain v' b' r' where f: "foldl dec_step (0, 0, []) ixs = (v', b', r')"
    by (cases "foldl dec_step (0, 0, []) ixs") auto
  from assms f have a: "v = be_val p" "list_all (\<lambda>i. i < 32) ixs"
    "8 * length p = 5 * length ixs + bits" "v' = drop_bit bits v"
    "5 * length ixs = 8 * length r' + b'" "b' < 8" "r' = take (length r') p"
    by (simp_all add: zinv_def)
  have le: "length r' \<le> length p" using a(3,5) by arith
  have d: "drop_bit (bits + 8) (push_bit 8 v OR uint b) = drop_bit bits v"
    by (simp add: drop_bit_or drop_push8_int dropn8_uint)
  have t: "r' = take (length r') (p @ [b])" using a(7) le by simp
  show ?thesis
    unfolding zinv_def using a f d t by (simp add: be_val_snoc)
qed

lemma idx_lt: "nat (x AND (31::int)) < 32"
proof -
  have "x AND 31 = take_bit 5 x" by (simp only: m31 take_bit_eq_mask)
  moreover have "take_bit 5 x < 2 ^ 5" by (rule take_bit_int_less_exp)
  ultimately show ?thesis by simp
qed

lemma idx_int: "int (nat (x AND (31::int))) = take_bit 5 x"
proof -
  have "x AND 31 = take_bit 5 x" by (simp only: m31 take_bit_eq_mask)
  then show ?thesis by simp
qed

lemma zinv_char:
  assumes "zinv p v bits ixs" and "5 \<le> bits"
  shows "zinv p v (bits - 5) (ixs @ [nat (drop_bit (bits - 5) v AND 31)])"
proof -
  obtain v' b' r' where f: "foldl dec_step (0, 0, []) ixs = (v', b', r')"
    by (cases "foldl dec_step (0, 0, []) ixs") auto
  from assms f have a: "v = be_val p" "list_all (\<lambda>i. i < 32) ixs"
    "8 * length p = 5 * length ixs + bits" "v' = drop_bit bits v"
    "5 * length ixs = 8 * length r' + b'" "b' < 8" "r' = take (length r') p"
    by (simp_all add: zinv_def)
  let ?w = "drop_bit (bits - 5) v"
  let ?i = "nat (?w AND 31)"
  have v'w: "v' = drop_bit 5 ?w" using a(4) assms(2) by (simp add: drop_bit_drop_bit)
  have nv: "push_bit 5 v' OR int ?i = ?w"
    by (simp only: idx_int v'w or_ident_int)
  show ?thesis
  proof (cases "b' + 5 \<ge> 8")
    case True
    have lt: "length r' < length p" using a(3,5) True assms(2) by arith
    have e: "b' + 5 - 8 + (bits - 5) = 8 * (length p - Suc (length r'))"
      using a(3,5) True assms(2) by arith
    have byte: "(word_of_int (drop_bit (b' + 5 - 8) ?w AND 255) :: byte) = p ! length r'"
      using be_val_byte[OF lt] e by (simp add: drop_bit_drop_bit a(1))
    have st: "foldl dec_step (0, 0, []) (ixs @ [?i]) = (?w, b' + 5 - 8, r' @ [p ! length r'])"
      using True nv byte by (simp add: f Let_def)
    have t: "r' @ [p ! length r'] = take (Suc (length r')) p"
      using a(7) lt by (metis take_Suc_conv_app_nth)
    show ?thesis
      unfolding zinv_def st using a True assms(2) t idx_lt by simp
  next
    case False
    have st: "foldl dec_step (0, 0, []) (ixs @ [?i]) = (?w, b' + 5, r')"
      using False nv by (simp add: f Let_def)
    show ?thesis
      unfolding zinv_def st using a False assms(2) idx_lt by simp
  qed
qed

lemma enc_while_zinv:
  "zinv p v bits ixs \<Longrightarrow>
   \<exists>ixs'. enc_while v bits (map ((!) alphabet) ixs) = (bits mod 5, map ((!) alphabet) ixs') \<and>
          zinv p v (bits mod 5) ixs'"
proof (induction bits arbitrary: ixs rule: less_induct)
  case (less bits)
  show ?case
  proof (cases "5 \<le> bits")
    case True
    let ?ixs = "ixs @ [nat (drop_bit (bits - 5) v AND 31)]"
    have z: "zinv p v (bits - 5) ?ixs" using less.prems True by (rule zinv_char)
    have "bits - 5 < bits" using True by simp
    from less.IH[OF this z] obtain ixs' where
      h: "enc_while v (bits - 5) (map ((!) alphabet) ?ixs) = ((bits - 5) mod 5, map ((!) alphabet) ixs')"
         "zinv p v ((bits - 5) mod 5) ixs'" by blast
    have m: "(bits - 5) mod 5 = bits mod 5" using True by (simp add: le_mod_geq)
    have "enc_while v bits (map ((!) alphabet) ixs) = enc_while v (bits - 5) (map ((!) alphabet) ?ixs)"
      using True by (subst enc_while.simps) simp
    then show ?thesis using h m by auto
  next
    case False
    then have "enc_while v bits (map ((!) alphabet) ixs) = (bits, map ((!) alphabet) ixs)"
      by (subst enc_while.simps) simp
    moreover have "bits mod 5 = bits" using False by simp
    ultimately show ?thesis using less.prems by auto
  qed
qed

lemma enc_for_zinv:
  "zinv p v bits ixs \<Longrightarrow>
   \<exists>ixs' bits'. enc_for v bits (map ((!) alphabet) ixs) data = (be_val (p @ data), bits', map ((!) alphabet) ixs') \<and>
          zinv (p @ data) (be_val (p @ data)) bits' ixs' \<and> (data \<noteq> [] \<longrightarrow> bits' < 5)"
proof (induction data arbitrary: p v bits ixs)
  case Nil
  then show ?case by (auto simp add: zinv_def)
next
  case (Cons b data)
  let ?v = "push_bit 8 v OR uint b"
  have z1: "zinv (p @ [b]) ?v (bits + 8) ixs" using Cons.prems by (rule zinv_byte)
  from enc_while_zinv[OF z1] obtain ixs1 where
    w: "enc_while ?v (bits + 8) (map ((!) alphabet) ixs) = ((bits + 8) mod 5, map ((!) alphabet) ixs1)"
    and z2: "zinv (p @ [b]) ?v ((bits + 8) mod 5) ixs1" by blast
  from Cons.IH[OF z2] obtain ixs' bits' where
    r: "enc_for ?v ((bits + 8) mod 5) (map ((!) alphabet) ixs1) data
          = (be_val ((p @ [b]) @ data), bits', map ((!) alphabet) ixs')"
    and z3: "zinv ((p @ [b]) @ data) (be_val ((p @ [b]) @ data)) bits' ixs'"
    and lt: "data \<noteq> [] \<longrightarrow> bits' < 5" by blast
  have b5: "bits' < 5"
  proof (cases data)
    case Nil
    with r have "bits' = (bits + 8) mod 5" by simp
    then show ?thesis by simp
  next
    case (Cons a list)
    with lt show ?thesis by simp
  qed
  have "enc_for v bits (map ((!) alphabet) ixs) (b # data)
        = enc_for ?v ((bits + 8) mod 5) (map ((!) alphabet) ixs1) data"
    by (simp add: w)
  with r z3 b5 show ?case by auto
qed

lemma dec_for_run:
  "list_all (\<lambda>i. i < 32) ixs \<Longrightarrow>
   dec_for v b r (map ((!) alphabet) ixs) = Inr (snd (snd (foldl dec_step (v, b, r) ixs)))"
proof (induction ixs arbitrary: v b r)
  case Nil
  then show ?case by simp
next
  case (Cons i ixs)
  then have i: "alphabet_map (alphabet ! i) = Some i" and rest: "list_all (\<lambda>i. i < 32) ixs"
    by (simp_all add: alphabet_map_nth)
  show ?case
    using Cons.IH[OF rest] by (simp add: i Let_def)
qed

lemma eight_step: "8 * (n::nat) = 8 * m + k \<Longrightarrow> 0 < k \<Longrightarrow> k < 16 \<Longrightarrow> k = 8 \<and> n = Suc m"
  by presburger

lemma eight_same: "8 * (n::nat) = 8 * m + k \<Longrightarrow> k < 8 \<Longrightarrow> n = m"
  by presburger

lemma last_byte:
  assumes "p \<noteq> []"
  shows "(word_of_int (be_val p AND 255) :: byte) = p ! (length p - 1)"
proof -
  have "length p - 1 < length p" using assms by simp
  from be_val_byte[OF this] show ?thesis using assms by simp
qed

lemma roundtrip_all: "z_base_32_decode (z_base_32_encode data) = Inr data"
proof -
  from enc_for_zinv[OF zinv_init, of data] obtain ixs bits where
    e: "enc_for 0 0 [] data = (be_val data, bits, map ((!) alphabet) ixs)"
    and z: "zinv data (be_val data) bits ixs"
    and lt: "data \<noteq> [] \<longrightarrow> bits < 5" by auto
  obtain v' b' r' where f: "foldl dec_step (0, 0, []) ixs = (v', b', r')"
    by (cases "foldl dec_step (0, 0, []) ixs") auto
  from z f have a: "list_all (\<lambda>i. i < 32) ixs"
    "8 * length data = 5 * length ixs + bits" "v' = drop_bit bits (be_val data)"
    "5 * length ixs = 8 * length r' + b'" "b' < 8" "r' = take (length r') data"
    by (simp_all add: zinv_def)
  show ?thesis
  proof (cases "bits = 0")
    case True
    have "8 * length data = 8 * length r' + b'" using a(2,4) True by simp
    then have "length r' = length data" using a(5) eight_same by metis
    then have "r' = data" using a(6) by simp
    moreover have "z_base_32_encode data = map ((!) alphabet) ixs"
      using True by (simp add: z_base_32_encode_def e)
    ultimately show ?thesis
      by (simp add: z_base_32_decode_def dec_for_run[OF a(1)] f)
  next
    case False
    then have ne: "data \<noteq> []" using e by auto
    then have b5: "bits < 5" using lt by simp
    let ?i = "nat (push_bit (5 - bits) (be_val data) AND 31)"
    have enc: "z_base_32_encode data = map ((!) alphabet) (ixs @ [?i])"
      using False by (simp add: z_base_32_encode_def e)
    have all: "list_all (\<lambda>i. i < 32) (ixs @ [?i])" using a(1) idx_lt by simp
    have "8 * length data = 8 * length r' + (b' + bits)" using a(2,4) by simp
    moreover have "0 < b' + bits" "b' + bits < 16" using False b5 a(5) by simp_all
    ultimately have "b' + bits = 8 \<and> length data = Suc (length r')" by (rule eight_step)
    then have bb: "b' + bits = 8" and lr: "Suc (length r') = length data" by simp_all
    have nv: "push_bit 5 v' OR int ?i = push_bit (5 - bits) (be_val data)"
      using b5 by (simp only: idx_int a(3)) (rule pad_ident_int, simp)
    have sh: "b' + 5 - 8 = 5 - bits" using bb b5 by arith
    have byte: "(word_of_int (drop_bit (b' + 5 - 8) (push_bit (5 - bits) (be_val data)) AND 255) :: byte)
                = data ! (length data - 1)"
      by (simp only: sh drop_push_int last_byte[OF ne])
    have ge: "8 \<le> b' + 5" using bb b5 by arith
    have st: "foldl dec_step (0, 0, []) (ixs @ [?i])
              = (push_bit (5 - bits) (be_val data), b' + 5 - 8, r' @ [data ! (length data - 1)])"
      using ge nv byte by (simp add: f Let_def)
    have "r' @ [data ! length r'] = take (Suc (length r')) data"
      using a(6) lr by (metis lessI take_Suc_conv_app_nth)
    moreover have "length data - 1 = length r'" using lr by arith
    ultimately have "r' @ [data ! (length data - 1)] = data" using lr by simp
    then show ?thesis
      by (simp only: enc z_base_32_decode_def dec_for_run[OF all] st snd_conv)
  qed
qed

text \<open>
  Claim C9. For every 32-byte input \<open>b\<close>, decoding the z-base-32 encoding of \<open>b\<close>
  succeeds and returns \<open>b\<close>; hence two 32-byte inputs with the same encoding are equal.
\<close>

theorem z_base_32_roundtrip:
  "length b = 32 \<Longrightarrow>
   z_base_32_decode (z_base_32_encode b) = Inr b \<and>
   (\<forall>b'. z_base_32_encode b' = z_base_32_encode b \<longrightarrow> b' = b)"
proof -
  have "\<And>b'. z_base_32_encode b' = z_base_32_encode b \<Longrightarrow> b' = b"
  proof -
    fix b' assume "z_base_32_encode b' = z_base_32_encode b"
    then have "z_base_32_decode (z_base_32_encode b') = z_base_32_decode (z_base_32_encode b)"
      by simp
    then show "b' = b" by (simp add: roundtrip_all)
  qed
  then show ?thesis by (simp add: roundtrip_all)
qed

theorem z_base_32_roundtrip_witness:
  "length (replicate 32 (7::byte)) = 32 \<and>
   z_base_32_decode (z_base_32_encode (replicate 32 7)) = Inr (replicate 32 7)"
  using z_base_32_roundtrip [of "replicate 32 7"] by simp

section \<open>The TTL of a signed packet\<close>

lemma fold_min_eq: "fold (\<lambda>y m. if y < m then y else m) xs (x::int) = Min (insert x (set xs))"
proof (induction xs arbitrary: x)
  case Nil then show ?case by simp
next
  case (Cons a xs)
  have m: "(if a < x then a else x) = min x a" by (simp add: min_def)
  have "Min (insert (min x a) (set xs)) = Min (insert x (insert a (set xs)))"
  proof (cases "set xs = {}")
    case True
    then show ?thesis by simp
  next
    case False
    then show ?thesis by (simp add: Min_insert min.assoc)
  qed
  then show ?case using Cons.IH[of "min x a"] by (simp add: m)
qed

lemma py_min_Min: "xs \<noteq> [] \<Longrightarrow> py_min xs = Min (set xs)"
  by (cases xs) (simp_all add: fold_min_eq)

lemma ttl_empty: "answers (packet sp) = [] \<Longrightarrow> SignedPacket_ttl sp min_ttl max_ttl = min_ttl"
  by (simp add: SignedPacket_ttl_def)

lemma ttl_nonempty:
  "answers (packet sp) \<noteq> [] \<Longrightarrow>
   SignedPacket_ttl sp min_ttl max_ttl
     = max min_ttl (min max_ttl (Min (set (map ttl (answers (packet sp))))))"
proof -
  assume "answers (packet sp) \<noteq> []"
  then have "map ttl (answers (packet sp)) \<noteq> []" by simp
  from py_min_Min[OF this] show ?thesis
    using \<open>answers (packet sp) \<noteq> []\<close> by (simp only: SignedPacket_ttl_def Let_def if_False)
qed

lemma clamp_max_min: "lo \<le> hi \<Longrightarrow> max lo (min hi x) = clamp x lo hi"
  by (simp add: clamp_def max_def min_def)

lemma ttl_bounds:
  "min_ttl \<le> max_ttl \<Longrightarrow>
   min_ttl \<le> SignedPacket_ttl sp min_ttl max_ttl \<and> SignedPacket_ttl sp min_ttl max_ttl \<le> max_ttl"
  by (cases "answers (packet sp) = []") (simp_all add: ttl_empty ttl_nonempty)

lemma ttl_example:
  "map ttl (answers (packet sp)) = [10, 50, 7] \<Longrightarrow> SignedPacket_ttl sp 300 86400 = 300"
proof -
  assume a: "map ttl (answers (packet sp)) = [10, 50, 7]"
  then have "answers (packet sp) \<noteq> []" by auto
  then show ?thesis by (simp add: SignedPacket_ttl_def a)
qed

text \<open>
  Claim C7. For every signed packet and every pair \<open>min_ttl \<le> max_ttl\<close>: without
  answer records \<open>ttl\<close> returns \<open>min_ttl\<close>; otherwise it returns the least record TTL
  clamped into the interval; the result always lies in the interval; and with the
  record TTLs 10, 50, 7 and the bounds 300 and 86400 the result is 300.
\<close>

theorem ttl_clamped:
  "min_ttl \<le> max_ttl \<Longrightarrow>
   (answers (packet sp) = [] \<longrightarrow> SignedPacket_ttl sp min_ttl max_ttl = min_ttl) \<and>
   (answers (packet sp) \<noteq> [] \<longrightarrow>
      SignedPacket_ttl sp min_ttl max_ttl
        = clamp (Min (set (map ttl (answers (packet sp))))) min_ttl max_ttl) \<and>
   min_ttl \<le> SignedPacket_ttl sp min_ttl max_ttl \<and>
   SignedPacket_ttl sp min_ttl max_ttl \<le> max_ttl \<and>
   (map ttl (answers (packet sp)) = [10, 50, 7] \<longrightarrow> SignedPacket_ttl sp 300 86400 = 300)"
  using ttl_bounds[of min_ttl max_ttl sp] ttl_example[of sp]
  by (simp add: ttl_empty ttl_nonempty clamp_max_min)

theorem ttl_clamped_witness:
  "(300::int) \<le> 86400 \<and> answers (packet sp_example) \<noteq> [] \<and>
   map ttl (answers (packet sp_example)) = [10, 50, 7] \<and>
   SignedPacket_ttl sp_example 300 86400 = 300 \<and>
   SignedPacket_ttl sp_example 300 86400
     = clamp (Min (set (map ttl (answers (packet sp_example))))) 300 86400 \<and>
   SignedPacket_ttl sp_example 5 8 = 7 \<and>
   SignedPacket_ttl (sp_example\<lparr>packet := SP_Packet []\<rparr>) 300 86400 = 300"
proof -
  have h: "(300::int) \<le> 86400" by simp
  have m: "map ttl (answers (packet sp_example)) = [10, 50, 7]"
    by (simp add: sp_example_def rr_def)
  have n: "answers (packet sp_example) \<noteq> []" by (simp add: sp_example_def)
  have e: "answers (packet (sp_example\<lparr>packet := SP_Packet []\<rparr>)) = []" by simp
  have lo: "SignedPacket_ttl sp_example 5 8 = 7"
    by (simp add: SignedPacket_ttl_def sp_example_def rr_def)
  show ?thesis
    using ttl_clamped[OF h, of sp_example]
          ttl_clamped[OF h, of "sp_example\<lparr>packet := SP_Packet []\<rparr>"] m n e lo
    by simp
qed

section \<open>The lookup loop\<close>

lemma pop_node_in: "xs \<noteq> [] \<Longrightarrow> pop_node pick xs \<in> set xs"
  by (simp add: pop_node_def)

lemma set_fold_insert: "set (fold List.insert ys xs) = set ys \<union> set xs"
  by (induction ys arbitrary: xs) auto

lemma distinct_fold_insert: "distinct xs \<Longrightarrow> distinct (fold List.insert ys xs)"
  by (induction ys arbitrary: xs) auto

lemma loop_inv_init: "0 \<le> max_attempts \<Longrightarrow> loop_inv max_attempts (loop_init nodes t)"
  by (simp add: loop_inv_def loop_init_def)

lemma loop_inv_pop:
  assumes "loop_inv max_attempts st" "nodes_to_query st \<noteq> []" "attempts st < max_attempts"
      and "pop_step pick st = (node, st1)"
  shows "loop_inv max_attempts st1 \<and> node \<notin> set (queries st) \<and> queries st1 = queries st @ [node]"
proof -
  have n: "node = pop_node pick (nodes_to_query st)"
    using assms(4) by (simp add: pop_step_def Let_def)
  then have mem: "node \<in> set (nodes_to_query st)" using assms(2) by (simp add: pop_node_in)
  have fresh: "node \<notin> set (queries st)" using mem assms(1) by (auto simp add: loop_inv_def)
  have st1: "st1 = st\<lparr>nodes_to_query := remove1 node (nodes_to_query st),
                    queried_nodes := List.insert node (queried_nodes st),
                    attempts := attempts st + 1,
                    ticks := Suc (ticks st),
                    queries := queries st @ [node]\<rparr>"
    using assms(4) n by (simp add: pop_step_def Let_def)
  have "loop_inv max_attempts st1"
    unfolding loop_inv_def st1 using assms(1,3) fresh mem
    by (auto simp add: loop_inv_def)
  then show ?thesis using fresh st1 by simp
qed

lemma loop_inv_add: "loop_inv max_attempts st \<Longrightarrow> loop_inv max_attempts (add_new_nodes ns st)"
  by (auto simp add: loop_inv_def add_new_nodes_def set_fold_insert distinct_fold_insert)

lemma add_new_nodes_queries: "queries (add_new_nodes ns st) = queries st"
  by (simp add: add_new_nodes_def)

lemma lookup_loop_inv:
  "loop_inv max_attempts st \<Longrightarrow>
   lookup_loop request clock pick max_attempts timeout start_time st = (r, st') \<Longrightarrow>
   loop_inv max_attempts st'"
proof (induction request clock pick max_attempts timeout start_time st rule: lookup_loop.induct)
  case (1 request clock pick max_attempts timeout start_time st)
  show ?case
  proof (cases "nodes_to_query st \<noteq> [] \<and> attempts st < max_attempts \<and>
                clock (ticks st) - start_time < timeout")
    case False
    then have "lookup_loop request clock pick max_attempts timeout start_time st = (Inr None, st)"
      by (subst lookup_loop.simps) (rule if_not_P)
    with "1.prems" show ?thesis by simp
  next
    case True
    obtain node st1 where p: "pop_step pick st = (node, st1)" by (cases "pop_step pick st") auto
    have i1: "loop_inv max_attempts st1"
      using loop_inv_pop[OF "1.prems"(1) _ _ p] True by simp
    have u: "lookup_loop request clock pick max_attempts timeout start_time st =
          (case request (attempts st1) node of
                Inl e \<Rightarrow>
                  (if is_PkarrError e
                   then lookup_loop request clock pick max_attempts timeout start_time st1
                   else (Inl e, st1))
              | Inr (RPacket result) \<Rightarrow> (Inl NameError, st1)
              | Inr (RNodes ns) \<Rightarrow>
                  lookup_loop request clock pick max_attempts timeout start_time
                    (add_new_nodes ns st1)
              | Inr RNone \<Rightarrow>
                  lookup_loop request clock pick max_attempts timeout start_time st1)"
      by (subst lookup_loop.simps, subst if_P[OF True]) (simp add: p)
    show ?thesis
    proof (cases "request (attempts st1) node")
      case (Inl e)
      show ?thesis
      proof (cases "is_PkarrError e")
        case pk: True
        have "lookup_loop request clock pick max_attempts timeout start_time st1 = (r, st')"
          using "1.prems"(2) u Inl pk by simp
        from "1.IH"(1)[OF True p[symmetric] Inl pk i1 this] show ?thesis .
      next
        case False
        then have "st' = st1" using "1.prems"(2) u Inl by simp
        then show ?thesis using i1 by simp
      qed
    next
      case (Inr res)
      show ?thesis
      proof (cases res)
        case RNone
        have "lookup_loop request clock pick max_attempts timeout start_time st1 = (r, st')"
          using "1.prems"(2) u Inr RNone by simp
        from "1.IH"(2)[OF True p[symmetric] Inr RNone i1 this] show ?thesis .
      next
        case (RPacket x)
        then have "st' = st1" using "1.prems"(2) u Inr by simp
        then show ?thesis using i1 by simp
      next
        case (RNodes ns)
        have "lookup_loop request clock pick max_attempts timeout start_time (add_new_nodes ns st1) = (r, st')"
          using "1.prems"(2) u Inr RNodes by simp
        from "1.IH"(3)[OF True p[symmetric] Inr RNodes loop_inv_add[OF i1] this] show ?thesis .
      qed
    qed
  qed
qed

lemma key52_ok: "PublicKey_init (KeyStr key52) = Inr \<lparr>key = replicate 32 0\<rparr>"
  by code_simp

lemma demo_run:
  "lookup_with demo_request (\<lambda>n. 0) (\<lambda>xs. 0) demo_client key52 3 30
     = (Inr None, [''A:1'', ''D:1'', ''C:1''])"
  by code_simp

text \<open>
  Claim C10. Within one call of \<open>lookup\<close>, whatever the nodes answer, whatever order
  the frontier is popped in and whatever the clock shows: no node is queried twice
  (the history of queries has no repetition, it is exactly the queried set, and no
  queried node is in the frontier), and the number of attempts equals the number of
  queries and does not exceed \<open>max_attempts\<close>. The first part speaks about the loop
  started as \<open>lookup\<close> starts it, the second about \<open>lookup\<close> with any outcome of
  the requests, the third about \<open>lookup\<close> with the call as the source writes it.
\<close>

theorem lookup_no_requery:
  assumes "0 \<le> max_attempts"
  shows "(case lookup_loop request clock pick max_attempts timeout start_time (loop_init nodes t) of
            (r, st) \<Rightarrow>
              distinct (queries st) \<and> set (queried_nodes st) = set (queries st) \<and>
              set (nodes_to_query st) \<inter> set (queried_nodes st) = {} \<and>
              attempts st = int (length (queries st)) \<and> attempts st \<le> max_attempts) \<and>
         (case lookup_with request clock pick self pk max_attempts timeout of
            (r, qs) \<Rightarrow> distinct qs \<and> int (length qs) \<le> max_attempts) \<and>
         (case lookup clock pick self pk max_attempts timeout of
            (r, qs) \<Rightarrow> distinct qs \<and> int (length qs) \<le> max_attempts)"
proof -
  have loop: "\<And>request start_time nodes t r st.
      lookup_loop request clock pick max_attempts timeout start_time (loop_init nodes t) = (r, st)
      \<Longrightarrow> loop_inv max_attempts st"
    using lookup_loop_inv[OF loop_inv_init[OF assms]] by blast
  have first: "(case lookup_loop request clock pick max_attempts timeout start_time (loop_init nodes t) of
            (r, st) \<Rightarrow>
              distinct (queries st) \<and> set (queried_nodes st) = set (queries st) \<and>
              set (nodes_to_query st) \<inter> set (queried_nodes st) = {} \<and>
              attempts st = int (length (queries st)) \<and> attempts st \<le> max_attempts)"
  proof (cases "lookup_loop request clock pick max_attempts timeout start_time (loop_init nodes t)")
    case (Pair r st)
    from loop[OF Pair] show ?thesis by (simp add: Pair loop_inv_def)
  qed
  have second: "\<And>request. (case lookup_with request clock pick self pk max_attempts timeout of
            (r, qs) \<Rightarrow> distinct qs \<and> int (length qs) \<le> max_attempts)"
  proof -
  fix request
  show "(case lookup_with request clock pick self pk max_attempts timeout of
            (r, qs) \<Rightarrow> distinct qs \<and> int (length qs) \<le> max_attempts)"
  proof (cases "lookup_with request clock pick self pk max_attempts timeout")
    case (Pair r qs)
    have "distinct qs \<and> int (length qs) \<le> max_attempts"
    proof (cases "PublicKey_init (KeyStr pk)")
      case (Inl e)
      then show ?thesis using Pair assms by (simp add: lookup_with_def)
    next
      case (Inr target_key)
      show ?thesis
      proof (cases "cache self")
        case None
        then show ?thesis using Pair Inr assms by (simp add: lookup_with_def)
      next
        case (Some c)
        let ?t0 = "(case c pk of None \<Rightarrow> 0 | Some _ \<Rightarrow> Suc 0)"
        obtain r' st where run: "lookup_loop request clock pick max_attempts timeout (clock ?t0)
                               (loop_init (bootstrap_nodes self) (Suc ?t0)) = (r', st)"
          by (cases "lookup_loop request clock pick max_attempts timeout (clock ?t0)
                               (loop_init (bootstrap_nodes self) (Suc ?t0))") auto
        from loop[OF run] have inv: "distinct (queries st)" "int (length (queries st)) \<le> max_attempts"
          by (simp_all add: loop_inv_def)
        have "qs = [] \<or> qs = queries st"
          using Pair Inr Some run
          by (auto simp add: lookup_with_def Let_def split: option.splits if_splits prod.splits)
        then show ?thesis using inv assms by auto
      qed
    qed
    then show ?thesis by (simp add: Pair)
  qed
  qed
  have third: "(case lookup clock pick self pk max_attempts timeout of
            (r, qs) \<Rightarrow> distinct qs \<and> int (length qs) \<le> max_attempts)"
    unfolding lookup_def by (rule second)
  from first second[of request] third show ?thesis by simp
qed

theorem lookup_no_requery_witness:
  "(0::int) \<le> 3 \<and>
   lookup_with demo_request (\<lambda>n. 0) (\<lambda>xs. 0) demo_client key52 3 30
     = (Inr None, [''A:1'', ''D:1'', ''C:1'']) \<and>
   distinct [''A:1'', ''D:1'', ''C:1''] \<and> int (length [''A:1'', ''D:1'', ''C:1'']) \<le> 3"
proof -
  have h: "(0::int) \<le> 3" by simp
  from lookup_no_requery[OF h, of demo_request "\<lambda>n. 0" "\<lambda>xs. 0" 30 0 "[]" 0 demo_client key52]
  show ?thesis by (simp add: demo_run)
qed

section \<open>The signable bytes\<close>

lemma utf8_ascii: "is_ascii c \<Longrightarrow> utf8_char c = [of_char c]"
  by (simp add: utf8_char_def is_ascii_def Let_def of_nat_of_char)

lemma str_encode_ascii: "list_all is_ascii s \<Longrightarrow> str_encode s = ascii s"
  by (induction s) (simp_all add: str_encode_def ascii_def utf8_ascii)

lemma digits_ascii: "list_all is_ascii ''0123456789''"
  by (simp add: is_ascii_def)

lemma digit_ascii: "d < 10 \<Longrightarrow> is_ascii (digit_char d)"
  using digits_ascii by (simp add: digit_char_def list_all_length)

lemma str_nat_ascii: "list_all is_ascii (str_nat n)"
proof (induction n rule: str_nat.induct)
  case (1 n)
  show ?case
  proof (cases "n < 10")
    case True
    then show ?thesis by (subst str_nat.simps) (simp add: digit_ascii)
  next
    case False
    then show ?thesis using "1.IH" by (subst str_nat.simps) (simp add: digit_ascii)
  qed
qed

lemma str_int_ascii: "list_all is_ascii (str_int i)"
  by (simp add: str_int_def str_nat_ascii is_ascii_def)

lemma literals_ascii: "list_all is_ascii ''3:seqi''" "list_all is_ascii ''e1:v''" "list_all is_ascii '':''"
  by (simp_all add: is_ascii_def)

lemma signable_example:
  "signable 1234 [1, 2, 3] = ascii ''3:seqi1234e1:v3:'' @ [1, 2, 3]"
  by (simp add: signable_def str_int_def str_nat.simps digit_char_def str_encode_def
        utf8_char_def ascii_def)

text \<open>
  The layout of the signable bytes: for every timestamp and every byte string the
  value computed by \<open>signable\<close> is the ASCII text
  \<^verbatim>\<open>3:seqi<timestamp>e1:v<length>:\<close> followed by the byte string, shown in general
  and at one input.
\<close>

theorem signable_layout:
  "signable t v = signable_spec t v \<and>
   signable 1234 [1, 2, 3] = ascii ''3:seqi1234e1:v3:'' @ [1, 2, 3]"
proof -
  have "list_all is_ascii (''3:seqi'' @ str_int t @ ''e1:v'' @ str_int (int (length v)) @ '':'')"
    using str_int_ascii literals_ascii by simp
  then have "signable t v = signable_spec t v"
    by (simp only: signable_def signable_spec_def str_encode_ascii)
  then show ?thesis using signable_example by simp
qed

section \<open>Signed packets from bytes and from packets\<close>

lemma from_packet_fails: "\<exists>e. SignedPacket_from_packet ed wire clock kp pkt = Inl e"
  by (simp add: SignedPacket_from_packet_def call_instance_def Let_def
           split: sum.splits option.splits)

lemma from_bytes_fails: "\<exists>e. SignedPacket_from_bytes ed clock data = Inl e"
  by (simp add: SignedPacket_from_bytes_def Let_def)

lemma from_bytes_cases:
  "SignedPacket_from_bytes ed clock data =
     (if length data < 104 then Inl (ValueError ''Invalid SignedPacket bytes length'')
      else if length data > 1104 then Inl (ValueError ''Packet too large'')
      else Inl AttributeError)"
  by (simp add: SignedPacket_from_bytes_def Let_def)

lemma as_bytes_placeholder:
  "\<exists>e. SignedPacket_as_bytes wire (sp\<lparr>packet := SP_Packet rrs\<rparr>) = Inl e"
  by (simp add: SignedPacket_as_bytes_def split: sum.splits)

lemma from_packet_example:
  "SignedPacket_from_packet demo_ed demo_wire (\<lambda>n. 0)
     \<lparr>secret_key = replicate 32 0, kp_public_key = \<lparr>key = replicate 32 1\<rparr>\<rparr> default_Packet
     = Inl TypeError"
  by (simp add: SignedPacket_from_packet_def default_Packet_def demo_wire_def Keypair_sign_def
        Crypto_sign_def call_instance_def Let_def)

text \<open>
  Claim C1 on the code. \<open>from_packet\<close> returns no signed packet for any keypair and
  any packet, and \<open>from_bytes\<close> returns none for any byte string, so the round trip
  never succeeds. At a keypair of 32 bytes and the empty packet of \<^verbatim>\<open>packet.py\<close>
  (encoded in zero bytes) \<open>from_packet\<close> raises \<^verbatim>\<open>TypeError\<close>.
\<close>

theorem roundtrip_never_succeeds:
  "(\<exists>e. SignedPacket_from_packet ed wire clock kp pkt = Inl e) \<and>
   (\<exists>e. SignedPacket_from_bytes ed clock data = Inl e) \<and>
   SignedPacket_from_packet demo_ed demo_wire (\<lambda>n. 0)
     \<lparr>secret_key = replicate 32 0, kp_public_key = \<lparr>key = replicate 32 1\<rparr>\<rparr> default_Packet
     = Inl TypeError"
  using from_packet_fails from_bytes_fails from_packet_example by blast

text \<open>
  Claim C4 on the code. A buffer of 104 bytes is not accepted, whatever the
  verification predicate answers: the attribute lookup \<^verbatim>\<open>public_key.verify\<close> fails.
  Buffers of 103 and of 1105 bytes are rejected with the two length errors.
\<close>

theorem from_bytes_104:
  "SignedPacket_from_bytes ed clock (replicate 104 0) = Inl AttributeError \<and>
   SignedPacket_from_bytes ed clock (replicate 103 0)
     = Inl (ValueError ''Invalid SignedPacket bytes length'') \<and>
   SignedPacket_from_bytes ed clock (replicate 1105 0) = Inl (ValueError ''Packet too large'')"
  by (simp add: from_bytes_cases)

text \<open>
  The two length errors of \<open>from_bytes\<close> are raised exactly below 104 bytes and
  exactly above 1104 bytes.
\<close>

theorem from_bytes_length_errors:
  "(SignedPacket_from_bytes ed clock data = Inl (ValueError ''Invalid SignedPacket bytes length''))
     = (length data < 104) \<and>
   (SignedPacket_from_bytes ed clock data = Inl (ValueError ''Packet too large''))
     = (length data > 1104)"
  by (simp add: from_bytes_cases)

text \<open>
  Claim C6 on the code. The result of \<open>from_bytes\<close> does not depend on the
  verification predicate: no payload is verified.
\<close>

theorem from_bytes_ignores_verify:
  "SignedPacket_from_bytes (ed\<lparr>ed_verify := v1\<rparr>) clock data
     = SignedPacket_from_bytes (ed\<lparr>ed_verify := v2\<rparr>) clock data"
  by (simp add: from_bytes_cases)

section \<open>Public keys\<close>

text \<open>
  Claim C8 on the code. The textual form \<^verbatim>\<open>yy\<close> builds a public key of one byte.
\<close>

theorem PublicKey_text_short: "PublicKey_init (KeyStr ''yy'') = Inr \<lparr>key = [0]\<rparr>"
  by code_simp

lemma PublicKey_text_lossy:
  "PublicKey_init (KeyStr (replicate 51 CHR ''y'' @ ''b'')) = Inr \<lparr>key = replicate 32 0\<rparr> \<and>
   to_z32 \<lparr>key = replicate 32 0\<rparr> = replicate 52 CHR ''y''"
  by code_simp

lemma PublicKey_text_empty: "PublicKey_init (KeyStr []) = Inr \<lparr>key = []\<rparr>"
  by code_simp

lemma PublicKey_text_bad_char: "PublicKey_init (KeyStr ''l'') = Inl KeyError"
  by code_simp

text \<open>
  The bytes path: construction succeeds exactly for 32 bytes, and the textual form of
  such a key builds the same key again.
\<close>

theorem PublicKey_bytes_path:
  "PublicKey_init (KeyBytes k) = Inr pk \<Longrightarrow>
   length (key pk) = 32 \<and> key pk = k \<and> PublicKey_init (KeyStr (to_z32 pk)) = Inr pk"
proof -
  assume a: "PublicKey_init (KeyBytes k) = Inr pk"
  then have l: "length k = 32" and p: "pk = \<lparr>key = k\<rparr>"
    by (simp_all split: if_splits)
  have "PublicKey_init (KeyStr (to_z32 pk)) = Inr pk"
    by (simp add: to_z32_def p roundtrip_all)
  then show ?thesis using l p by simp
qed

theorem PublicKey_bytes_path_witness:
  "PublicKey_init (KeyBytes (replicate 32 7)) = Inr \<lparr>key = replicate 32 7\<rparr> \<and>
   length (key \<lparr>key = replicate 32 (7::byte)\<rparr>) = 32 \<and>
   PublicKey_init (KeyStr (to_z32 \<lparr>key = replicate 32 7\<rparr>)) = Inr \<lparr>key = replicate 32 7\<rparr>"
proof -
  have h: "PublicKey_init (KeyBytes (replicate 32 7)) = Inr \<lparr>key = replicate 32 7\<rparr>" by simp
  from PublicKey_bytes_path[OF h] h show ?thesis by simp
qed

section \<open>Lookup on the code as written\<close>

text \<open>
  Claim C2 on the code. On a client built by the constructor, \<open>lookup\<close> returns
  neither a packet nor not-found: it raises the error of the key parser or, for every
  key that parses, \<^verbatim>\<open>AttributeError\<close>, before any node is queried.
\<close>

theorem lookup_fresh_client:
  "lookup clock pick (PkarrClient_init kp nodes) pk max_attempts timeout =
     (case PublicKey_init (KeyStr pk) of
        Inl e \<Rightarrow> (Inl e, [])
      | Inr target_key \<Rightarrow> (Inl AttributeError, []))"
  by (simp add: lookup_def lookup_with_def PkarrClient_init_def split: sum.splits)

lemma connect_to_peers_no_packet: "connect_to_peers b pvs tk \<noteq> Inr (RPacket sp)"
  by (induction b pvs tk rule: connect_to_peers.induct)
     (simp_all add: SignedPacket_three_args_def)

text \<open>
  No reply makes \<open>_connect_to_peers\<close> or \<open>_request_packet\<close> return a packet: the
  construction of the placeholder packet raises and the exception is swallowed.
\<close>

theorem request_packet_no_packet:
  "fst (request_packet net self node tk rt) \<noteq> Inr (RPacket sp)"
  by (auto simp add: request_packet_def connect_to_peers_no_packet
        split: option.splits prod.splits net_outcome.splits dht_reply.splits sum.splits)

text \<open>
  Claim C3 on the code. Were a request to yield a packet, the statement that stores it
  in the cache raises \<^verbatim>\<open>NameError\<close>: \<open>lookup\<close> does not return the packet.
\<close>

theorem lookup_store_raises:
  "lookup_with (\<lambda>n node. Inr (RPacket sp)) (\<lambda>n. 0) (\<lambda>xs. 0) demo_client key52 100 30
     = (Inl NameError, [''A:1''])"
proof -
  have k: "PublicKey_init (KeyStr key52) = Inr \<lparr>key = replicate 32 0\<rparr>" by (rule key52_ok)
  have p: "pop_step (\<lambda>xs. 0) (loop_init [''A:1'', ''B:1''] (Suc 0))
             = (''A:1'', \<lparr>nodes_to_query = [''B:1''], queried_nodes = [''A:1''], attempts = 1,
                          ticks = Suc (Suc 0), queries = [''A:1'']\<rparr>)"
    by (simp add: pop_step_def pop_node_def loop_init_def Let_def)
  have "lookup_loop (\<lambda>n node. Inr (RPacket sp)) (\<lambda>n. 0) (\<lambda>xs. 0) 100 30 0
          (loop_init [''A:1'', ''B:1''] (Suc 0))
        = (Inl NameError, \<lparr>nodes_to_query = [''B:1''], queried_nodes = [''A:1''], attempts = 1,
                          ticks = Suc (Suc 0), queries = [''A:1'']\<rparr>)"
    by (subst lookup_loop.simps) (simp add: p, simp add: loop_init_def)
  then show ?thesis
    by (simp add: lookup_with_def k demo_client_def del: PublicKey_init.simps)
qed

text \<open>
  The cache read: with an unexpired entry for the key, \<open>lookup\<close> returns the cached
  packet and makes no attempt.
\<close>

theorem cache_hit:
  assumes "PublicKey_init (KeyStr pk) = Inr target_key"
      and "cache self = Some c" and "c pk = Some (p, expiration)" and "clock 0 < expiration"
  shows "lookup clock pick self pk max_attempts timeout = (Inr (Some p), [])"
  using assms by (simp add: lookup_def lookup_with_def del: PublicKey_init.simps)

theorem cache_hit_witness:
  "PublicKey_init (KeyStr key52) = Inr \<lparr>key = replicate 32 0\<rparr> \<and>
   lookup (\<lambda>n. 5) (\<lambda>xs. 0) cached_client key52 100 30 = (Inr (Some sp_example), [])"
proof -
  have c: "cache cached_client = Some [key52 \<mapsto> (sp_example, 100)]"
    by (simp add: cached_client_def)
  have e: "[key52 \<mapsto> (sp_example, 100::real)] key52 = Some (sp_example, 100)" by simp
  have t: "(\<lambda>n::nat. 5::real) 0 < 100" by simp
  from cache_hit[OF key52_ok c e t] key52_ok show ?thesis by simp
qed

text \<open>
  Claim C5 on the code. With the \<^verbatim>\<open>cache\<close> attribute present, the call of
  \<^verbatim>\<open>_request_packet\<close> for the first node raises \<^verbatim>\<open>TypeError\<close>, which the handler of
  the loop does not catch: it leaves \<open>lookup\<close> after one attempt.
\<close>

theorem lookup_request_error_propagates:
  "lookup (\<lambda>n. 0) (\<lambda>xs. 0) demo_client key52 100 30 = (Inl TypeError, [''A:1''])"
proof -
  have k: "PublicKey_init (KeyStr key52) = Inr \<lparr>key = replicate 32 0\<rparr>" by (rule key52_ok)
  have p: "pop_step (\<lambda>xs. 0) (loop_init [''A:1'', ''B:1''] (Suc 0))
             = (''A:1'', \<lparr>nodes_to_query = [''B:1''], queried_nodes = [''A:1''], attempts = 1,
                          ticks = Suc (Suc 0), queries = [''A:1'']\<rparr>)"
    by (simp add: pop_step_def pop_node_def loop_init_def Let_def)
  have "lookup_loop request_packet_call (\<lambda>n. 0) (\<lambda>xs. 0) 100 30 0
          (loop_init [''A:1'', ''B:1''] (Suc 0))
        = (Inl TypeError, \<lparr>nodes_to_query = [''B:1''], queried_nodes = [''A:1''], attempts = 1,
                          ticks = Suc (Suc 0), queries = [''A:1'']\<rparr>)"
    by (subst lookup_loop.simps) (simp add: p request_packet_call_def, simp add: loop_init_def)
  then show ?thesis
    by (simp add: lookup_def lookup_with_def k demo_client_def del: PublicKey_init.simps)
qed

text \<open>
  A node address without a colon makes \<open>_request_packet\<close> itself raise, and such an
  exception passes through the loop.
\<close>

lemma request_packet_malformed_node:
  "request_packet net self ''nocolon'' tk rt = (Inl UnboundLocalError, self)"
  by (simp add: request_packet_def parse_node_def)

lemma lookup_loop_passes_error:
  "nodes_to_query st \<noteq> [] \<Longrightarrow> attempts st < max_attempts \<Longrightarrow>
   clock (ticks st) - start_time < timeout \<Longrightarrow>
   request (attempts st + 1) (pop_node pick (nodes_to_query st)) = Inl e \<Longrightarrow>
   \<not> is_PkarrError e \<Longrightarrow>
   fst (lookup_loop request clock pick max_attempts timeout start_time st) = Inl e"
  by (subst lookup_loop.simps) (simp add: pop_step_def Let_def)

end
